theory Spec2Isabelle
  imports Main
begin

section \<open>The tap/CSMA session controller of tap-csma-virtual-machine.cc\<close>

text \<open>
  The program has two kinds of threads. The controller (the thread of \<open>main\<close>) reads
  commands from standard input and calls \<open>start_thread\<close>, \<open>stop_thread\<close> and
  \<open>restart_thread\<close>. Every \<open>start_thread\<close> creates a worker thread that runs
  \<open>ns3task\<close>, hence \<open>createSimulation\<close>, against the ns-3 engine.

  The ns-3 engine, the thread library and the C library are not part of the file. Their
  calls are recorded, in program order, with the arguments the source passes:
  a worker's run is the list of engine calls of \<open>createSimulation\<close>, and the controller's
  run is the field \<open>trace\<close> of the process state. The function \<open>input\<close> of the source
  is never called and is left out.
\<close>

subsection \<open>Text functions of the C library\<close>

text \<open>\<open>isspace\<close> and \<open>isdigit\<close> in the C locale.\<close>

definition isspace :: "char \<Rightarrow> bool" where
  "isspace c = (let k = (of_char c :: nat) in k = 32 \<or> (9 \<le> k \<and> k \<le> 13))"

definition isdigit :: "char \<Rightarrow> bool" where
  "isdigit c = (let k = (of_char c :: nat) in 48 \<le> k \<and> k \<le> 57)"

definition digit_char :: "nat \<Rightarrow> char" where
  "digit_char k = ''0123456789'' ! k"

definition digit_val :: "char \<Rightarrow> nat" where
  "digit_val c = of_char c - 48"

text \<open>The decimal digits of a natural number, most significant first.\<close>

fun dec :: "nat \<Rightarrow> string" where
  "dec n = (if n < 10 then [digit_char n] else dec (n div 10) @ [digit_char (n mod 10)])"

declare dec.simps [simp del]

text \<open>What the conversion \<open>%d\<close> of \<open>sprintf\<close> writes for an \<open>int\<close>.\<close>

definition sprintf_d :: "int \<Rightarrow> string" where
  "sprintf_d i = (if i < 0 then CHR ''-'' # dec (nat (- i)) else dec (nat i))"

text \<open>\<open>sprintf(str, "tap%d-ns", i)\<close>: the content of \<open>str\<close> afterwards.\<close>

definition sprintf_tap :: "int \<Rightarrow> string" where
  "sprintf_tap i = ''tap'' @ sprintf_d i @ ''-ns''"

text \<open>
  A C string ends at its first NUL byte: \<open>cstr\<close> is the text that \<open>strcmp\<close> and
  \<open>printf\<close> see in an array holding the bytes \<open>bs\<close> followed by a NUL.
\<close>

definition cstr :: "string \<Rightarrow> string" where
  "cstr bs = takeWhile (\<lambda>c. c \<noteq> CHR 0x00) bs"

text \<open>
  The outcome of one conversion of \<open>scanf\<close>: a value was assigned, the input did not
  match (nothing assigned), or the input ended before the conversion (nothing assigned,
  \<open>scanf\<close> returns \<open>EOF\<close>). The program never looks at the return value of \<open>scanf\<close>.
\<close>

datatype 'a scanned = Assigned 'a | Matching_failure | Input_failure

text \<open>
  \<open>scanf("%s", in)\<close> on the unread input: skips white space, then takes the characters
  up to the next white space. The second component is the input left unread.
\<close>

definition scanf_s :: "string \<Rightarrow> string scanned \<times> string" where
  "scanf_s inp =
     (let r = dropWhile isspace inp
      in if r = [] then (Input_failure, r)
         else (Assigned (takeWhile (\<lambda>c. \<not> isspace c) r), dropWhile (\<lambda>c. \<not> isspace c) r))"

text \<open>The value of a sequence of decimal digits.\<close>

definition digits_val :: "string \<Rightarrow> nat" where
  "digits_val ds = foldl (\<lambda>a c. 10 * a + digit_val c) 0 ds"

text \<open>
  \<open>scanf("%d", &x)\<close> on the unread input: skips white space, takes an optional sign and
  the longest run of digits. A sign that no digit follows is consumed and the conversion
  fails. The value is the mathematical one; \<open>main\<close> checks it against the range of
  \<open>int\<close>.
\<close>

definition scanf_d :: "string \<Rightarrow> int scanned \<times> string" where
  "scanf_d inp =
     (let r = dropWhile isspace inp
      in if r = [] then (Input_failure, r)
         else
           (let neg = (hd r = CHR ''-'');
                r1 = (if hd r = CHR ''-'' \<or> hd r = CHR ''+'' then tl r else r);
                ds = takeWhile isdigit r1;
                rest = dropWhile isdigit r1
            in if ds = [] then (if r1 = [] then Input_failure else Matching_failure, rest)
               else (Assigned (if neg then - int (digits_val ds) else int (digits_val ds)), rest)))"

definition INT_MIN :: int where
  "INT_MIN = - 2147483648"

definition INT_MAX :: int where
  "INT_MAX = 2147483647"

subsection \<open>The worker: \<open>createSimulation\<close> and \<open>ns3task\<close>\<close>

datatype attribute_value =
    StringValue string
  | BooleanValue bool
  | TimeValue_MilliSeconds int

text \<open>
  The calls of the worker into ns-3. \<open>CsmaHelper_Install\<close> is \<open>csma.Install(nodes)\<close>, the
  one call that creates the channel and attaches every node of the container to it;
  \<open>TapBridgeHelper_Install i j\<close> is \<open>tapBridge.Install(nodes.Get(i), devices.Get(j))\<close>.
\<close>

datatype engine_call =
    GlobalValue_Bind string attribute_value
  | NodeContainer_Create int
  | CsmaHelper_SetChannelAttribute string attribute_value
  | CsmaHelper_Install
  | TapBridgeHelper_SetAttribute string attribute_value
  | TapBridgeHelper_Install int int
  | Simulator_Run
  | Simulator_Stop
  | Simulator_Destroy

text \<open>
  The loop \<open>for (int i = 0; i < n_nodes; i++)\<close> of \<open>createSimulation\<close>, from the value
  \<open>i\<close> of the counter, appending its calls to those made so far. The counter stays below
  \<open>n_nodes\<close>, so \<open>i + 1\<close> never leaves the range of \<open>int\<close>.
\<close>

function bridge_loop :: "int \<Rightarrow> int \<Rightarrow> engine_call list \<Rightarrow> engine_call list" where
  "bridge_loop i n_nodes cs =
     (if i < n_nodes
      then bridge_loop (i + 1) n_nodes
             (cs @ [TapBridgeHelper_SetAttribute ''DeviceName'' (StringValue (sprintf_tap i)),
                    TapBridgeHelper_Install i i])
      else cs)"
  by pat_completeness auto
termination
  by (relation "measure (\<lambda>(i, n_nodes, cs). nat (n_nodes - i))") auto

declare bridge_loop.simps [simp del]

text \<open>
  \<open>createSimulation(delay, n_nodes)\<close>: the calls it makes, in order, when no call fails
  and the thread is not cancelled. \<open>Simulator::Run\<close> blocks while the simulation runs.
\<close>

definition createSimulation :: "int \<Rightarrow> int \<Rightarrow> engine_call list" where
  "createSimulation delay n_nodes =
     bridge_loop 0 n_nodes
       [GlobalValue_Bind ''SimulatorImplementationType'' (StringValue ''ns3::RealtimeSimulatorImpl''),
        GlobalValue_Bind ''ChecksumEnabled'' (BooleanValue False),
        NodeContainer_Create n_nodes,
        CsmaHelper_SetChannelAttribute ''Delay'' (TimeValue_MilliSeconds delay),
        CsmaHelper_Install,
        TapBridgeHelper_SetAttribute ''Mode'' (StringValue ''UseLocal'')]
     @ [Simulator_Run, Simulator_Destroy]"

definition ns3task :: "int \<Rightarrow> int \<Rightarrow> engine_call list" where
  "ns3task delay n_nodes = createSimulation delay n_nodes"

subsection \<open>The controller: \<open>start_thread\<close>, \<open>stop_thread\<close>, \<open>restart_thread\<close>\<close>

text \<open>
  A thread is named by its rank of creation: the first thread created is 0. A
  \<open>pthread_t\<close> is \<open>Some t\<close>, the handle of thread \<open>t\<close>, or \<open>None\<close>, the value of the
  zero-initialised global before any assignment.
\<close>

type_synonym tid = nat

type_synonym pthread_t = "tid option"

text \<open>
  What the controller thread does, in order: creating a thread that runs \<open>ns3task\<close> with
  two arguments, writing the global \<open>native_handler\<close>, detaching, cancelling, calling the
  engine, parsing the command line and printing.
\<close>

datatype call =
    Thread_create tid int int
  | Store_native_handler pthread_t
  | Thread_detach tid
  | Pthread_cancel pthread_t
  | Engine engine_call
  | CommandLine_Parse
  | Printf string

text \<open>
  The state of the process as the controller sees it: the only global of the
  controller (\<open>native_handler\<close>), the arguments of every thread created so far (thread
  \<open>t\<close> runs \<open>ns3task\<close> on \<open>workers ! t\<close>), the controller's calls so far and the
  unread part of standard input.
\<close>

record process =
  native_handler :: pthread_t
  workers :: "(int \<times> int) list"
  trace :: "call list"
  stdin :: string

definition emit :: "call \<Rightarrow> process \<Rightarrow> process" where
  "emit c p = p\<lparr>trace := trace p @ [c]\<rparr>"

text \<open>The calls the worker \<open>t\<close> makes when it runs undisturbed.\<close>

definition worker_program :: "process \<Rightarrow> tid \<Rightarrow> engine_call list" where
  "worker_program p t = (case workers p ! t of (delay, n_nodes) \<Rightarrow> ns3task delay n_nodes)"

text \<open>
  \<open>start_thread\<close>: the constructor of \<open>std::thread\<close> starts the new thread on
  \<open>ns3task(delay, n_nodes)\<close>, the handle is stored, the thread is detached. Thread
  creation is taken to succeed. There is no check of the arguments and no other exit.
\<close>

definition start_thread :: "int \<Rightarrow> int \<Rightarrow> process \<Rightarrow> process" where
  "start_thread delay n_nodes p =
     (let thrd = length (workers p);
          p1 = emit (Thread_create thrd delay n_nodes) (p\<lparr>workers := workers p @ [(delay, n_nodes)]\<rparr>);
          p2 = emit (Store_native_handler (Some thrd)) (p1\<lparr>native_handler := Some thrd\<rparr>);
          p3 = emit (Thread_detach thrd) p2
      in p3)"

definition stop_thread :: "process \<Rightarrow> process" where
  "stop_thread p =
     (let p1 = emit (Pthread_cancel (native_handler p)) p;
          p2 = emit (Engine Simulator_Stop) p1;
          p3 = emit (Engine Simulator_Destroy) p2
      in p3)"

definition restart_thread :: "int \<Rightarrow> int \<Rightarrow> process \<Rightarrow> process" where
  "restart_thread delay n_nodes p = start_thread delay n_nodes (stop_thread p)"

subsection \<open>The command loop of \<open>main\<close>\<close>

text \<open>
  The locals of \<open>main\<close>. \<open>in_buf\<close> is the C string held by the array \<open>in\<close> of 1024
  bytes.
\<close>

record frame =
  n_nodes :: int
  delay :: int
  in_buf :: string

text \<open>
  Two inputs leave the behaviour of the program undefined: a token of 1024 characters
  or more, which \<open>scanf("%s", in)\<close> writes past the end of \<open>in\<close>, and a number outside
  the range of \<open>int\<close> read by \<open>scanf("%d", ...)\<close>.
\<close>

datatype fault = Buffer_overflow | Int_out_of_range

text \<open>\<open>strcmp(a, b) == 0\<close>.\<close>

definition strcmp_eq :: "string \<Rightarrow> string \<Rightarrow> bool" where
  "strcmp_eq a b = (cstr a = cstr b)"

text \<open>\<open>if (strcmp(in, "stop") == 0) { ... }\<close>\<close>

definition if_stop :: "frame \<times> process \<Rightarrow> frame \<times> process" where
  "if_stop s =
     (case s of (f, p) \<Rightarrow>
        if strcmp_eq (in_buf f) ''stop''
        then (f, stop_thread (emit (Printf ''stopping\<newline>'') p))
        else (f, p))"

text \<open>
  \<open>if (strcmp(in, "chgd") == 0) { ... }\<close>: when \<open>scanf\<close> assigns nothing, \<open>delay\<close>
  keeps its value and the restart takes place all the same.
\<close>

definition if_chgd :: "frame \<times> process \<Rightarrow> fault + frame \<times> process" where
  "if_chgd s =
     (case s of (f, p) \<Rightarrow>
        if strcmp_eq (in_buf f) ''chgd''
        then
          (let p1 = emit (Printf ''delay > '') p
           in case scanf_d (stdin p1) of
                (Assigned v, rest) \<Rightarrow>
                  if v < INT_MIN \<or> INT_MAX < v then Inl Int_out_of_range
                  else Inr (f\<lparr>delay := v\<rparr>, restart_thread v (n_nodes f) (p1\<lparr>stdin := rest\<rparr>))
              | (_, rest) \<Rightarrow>
                  Inr (f, restart_thread (delay f) (n_nodes f) (p1\<lparr>stdin := rest\<rparr>)))
        else Inr (f, p))"

text \<open>\<open>if (strcmp(in, "chgn") == 0) { ... }\<close>\<close>

definition if_chgn :: "frame \<times> process \<Rightarrow> fault + frame \<times> process" where
  "if_chgn s =
     (case s of (f, p) \<Rightarrow>
        if strcmp_eq (in_buf f) ''chgn''
        then
          (let p1 = emit (Printf ''n nodes > '') p
           in case scanf_d (stdin p1) of
                (Assigned v, rest) \<Rightarrow>
                  if v < INT_MIN \<or> INT_MAX < v then Inl Int_out_of_range
                  else Inr (f\<lparr>n_nodes := v\<rparr>, restart_thread (delay f) v (p1\<lparr>stdin := rest\<rparr>))
              | (_, rest) \<Rightarrow>
                  Inr (f, restart_thread (delay f) (n_nodes f) (p1\<lparr>stdin := rest\<rparr>)))
        else Inr (f, p))"

text \<open>
  The three \<open>if\<close> statements in the order of the source, then \<open>in[0] = 0\<close>. \<open>in\<close> is
  not written between the comparisons.
\<close>

definition dispatch :: "frame \<times> process \<Rightarrow> fault + frame \<times> process" where
  "dispatch s =
     (case if_chgd (if_stop s) of
        Inl e \<Rightarrow> Inl e
      | Inr s1 \<Rightarrow>
          (case if_chgn s1 of
             Inl e \<Rightarrow> Inl e
           | Inr (f, p) \<Rightarrow> Inr (f\<lparr>in_buf := []\<rparr>, p)))"

text \<open>
  One turn of \<open>for (;;)\<close>: the prompt, the token, the three comparisons. At the end of
  input \<open>scanf\<close> leaves \<open>in\<close> as it is.
\<close>

definition main_iter :: "frame \<times> process \<Rightarrow> fault + frame \<times> process" where
  "main_iter s =
     (case s of (f, p) \<Rightarrow>
        (let p1 = emit (Printf ''> '') p
         in case scanf_s (stdin p1) of
              (Assigned tok, rest) \<Rightarrow>
                if 1024 \<le> length tok then Inl Buffer_overflow
                else dispatch (f\<lparr>in_buf := cstr tok\<rparr>, p1\<lparr>stdin := rest\<rparr>)
            | (_, rest) \<Rightarrow> dispatch (f, p1\<lparr>stdin := rest\<rparr>)))"

text \<open>The state after \<open>k\<close> turns of the loop, which has no exit.\<close>

fun main_loop :: "nat \<Rightarrow> frame \<times> process \<Rightarrow> fault + frame \<times> process" where
  "main_loop 0 s = Inr s"
| "main_loop (Suc k) s = (case main_iter s of Inl e \<Rightarrow> Inl e | Inr s' \<Rightarrow> main_loop k s')"

text \<open>The process when \<open>main\<close> is entered, with \<open>inp\<close> on standard input.\<close>

definition process_start :: "string \<Rightarrow> process" where
  "process_start inp = \<lparr>native_handler = None, workers = [], trace = [], stdin = inp\<rparr>"

text \<open>
  \<open>main\<close> up to the loop: the command line is parsed (the call is taken to return),
  the locals get their values and \<open>start_thread\<close> is called. The array \<open>in\<close> is not
  initialised: its content \<open>in0\<close> is a parameter.
\<close>

definition main_init :: "string \<Rightarrow> string \<Rightarrow> frame \<times> process" where
  "main_init in0 inp =
     (let p = emit CommandLine_Parse (process_start inp);
          n_nodes0 = 3;
          delay0 = 0
      in (\<lparr>n_nodes = n_nodes0, delay = delay0, in_buf = cstr in0\<rparr>, start_thread delay0 n_nodes0 p))"

text \<open>\<open>main\<close> after \<open>k\<close> turns of its loop.\<close>

definition main :: "nat \<Rightarrow> string \<Rightarrow> string \<Rightarrow> fault + frame \<times> process" where
  "main k in0 inp = main_loop k (main_init in0 inp)"

subsection \<open>Sessions, read off the controller's calls\<close>

text \<open>
  The program keeps no status variable. The status of a session is read off the calls
  of the controller: the session of worker \<open>t\<close> is running from \<open>Thread_create t\<close>
  until the controller asks for the cancellation of \<open>t\<close> with
  \<open>Pthread_cancel (Some t)\<close>. This is the status, not the life of the thread, which is
  \<open>alive_after\<close> below.
\<close>

fun session_step :: "tid list \<Rightarrow> call \<Rightarrow> tid list" where
  "session_step rs (Thread_create t d n) = rs @ [t]"
| "session_step rs (Pthread_cancel h) = filter (\<lambda>t. h \<noteq> Some t) rs"
| "session_step rs (Store_native_handler h) = rs"
| "session_step rs (Thread_detach t) = rs"
| "session_step rs (Engine c) = rs"
| "session_step rs CommandLine_Parse = rs"
| "session_step rs (Printf s) = rs"

definition running_sessions :: "call list \<Rightarrow> tid list" where
  "running_sessions cs = foldl session_step [] cs"

datatype status = Stopped | Running

definition status_of :: "process \<Rightarrow> status" where
  "status_of p = (if running_sessions (trace p) = [] then Stopped else Running)"

text \<open>The handle of the thread created last, \<open>h\<close> when the calls create none.\<close>

fun note_create :: "pthread_t \<Rightarrow> call \<Rightarrow> pthread_t" where
  "note_create h (Thread_create t d n) = Some t"
| "note_create h (Store_native_handler h') = h"
| "note_create h (Thread_detach t) = h"
| "note_create h (Pthread_cancel h') = h"
| "note_create h (Engine c) = h"
| "note_create h CommandLine_Parse = h"
| "note_create h (Printf s) = h"

definition latest_created :: "call list \<Rightarrow> pthread_t" where
  "latest_created cs = foldl note_create None cs"

text \<open>
  The worker threads that exist. A thread exists from the call that creates it.
  \<open>pthread_cancel\<close> is a request and returns at once; every thread is detached and
  the program has no join, so no call of the controller waits for a thread to end. A
  thread ends on its own, at a moment the controller does not know: when \<open>ns3task\<close>
  returns or when the thread acts on a cancellation. \<open>alive_after cs A\<close>: after the
  calls \<open>cs\<close> of the controller, \<open>A\<close> can be the set of the worker threads that exist.
\<close>

fun created_by :: "call \<Rightarrow> tid list" where
  "created_by (Thread_create t d n) = [t]"
| "created_by (Store_native_handler h) = []"
| "created_by (Thread_detach t) = []"
| "created_by (Pthread_cancel h) = []"
| "created_by (Engine c) = []"
| "created_by CommandLine_Parse = []"
| "created_by (Printf s) = []"

definition created_threads :: "call list \<Rightarrow> tid list" where
  "created_threads cs = concat (map created_by cs)"

inductive alive_after :: "call list \<Rightarrow> tid set \<Rightarrow> bool" where
  none: "alive_after [] {}"
| call: "alive_after cs A \<Longrightarrow> alive_after (cs @ [c]) (A \<union> set (created_by c))"
| ended: "alive_after cs A \<Longrightarrow> alive_after cs (A - {t})"

text \<open>
  What the command loop can do to the process between two states: print, consume
  input, call \<open>stop_thread\<close>, call \<open>restart_thread\<close>.
\<close>

inductive loop_reach :: "process \<Rightarrow> process \<Rightarrow> bool" where
  here: "loop_reach p p"
| prints: "loop_reach p q \<Longrightarrow> loop_reach p (emit (Printf s) q)"
| reads: "loop_reach p q \<Longrightarrow> loop_reach p (q\<lparr>stdin := r\<rparr>)"
| stops: "loop_reach p q \<Longrightarrow> loop_reach p (stop_thread q)"
| restarts: "loop_reach p q \<Longrightarrow> loop_reach p (restart_thread d n q)"

text \<open>
  Two predicates for the proofs about the loop. \<open>one_session cs h\<close>: after every
  initial part of the calls \<open>cs\<close> at most one worker is running, and a worker running
  at the end is the one that \<open>h\<close> names. \<open>handle_latest cs h\<close>: every cancellation in
  \<open>cs\<close> is aimed at the thread created last before it, and \<open>h\<close> is the handle of the
  thread created last in \<open>cs\<close>. \<open>slot_ok\<close> ties the second to the process.
\<close>

definition one_session :: "call list \<Rightarrow> pthread_t \<Rightarrow> bool" where
  "one_session cs h \<longleftrightarrow>
     (\<forall>pre suf. cs = pre @ suf \<longrightarrow> length (running_sessions pre) \<le> 1) \<and>
     (\<forall>t \<in> set (running_sessions cs). h = Some t)"

definition handle_latest :: "call list \<Rightarrow> pthread_t \<Rightarrow> bool" where
  "handle_latest cs h \<longleftrightarrow>
     (\<forall>pre h' suf. cs = pre @ Pthread_cancel h' # suf \<longrightarrow> h' = latest_created pre) \<and>
     latest_created cs = h"

definition slot_ok :: "process \<Rightarrow> bool" where
  "slot_ok q \<longleftrightarrow>
     handle_latest (trace q) (native_handler q) \<and>
     workers q \<noteq> [] \<and> native_handler q = Some (length (workers q) - 1)"

section \<open>Properties\<close>

subsection \<open>Fields after the controller's operations\<close>

lemma emit_fields [simp]:
  "trace (emit c p) = trace p @ [c]"
  "workers (emit c p) = workers p"
  "native_handler (emit c p) = native_handler p"
  "stdin (emit c p) = stdin p"
  by (simp_all add: emit_def)

lemma start_thread_fields:
  "trace (start_thread d n p) =
     trace p @ [Thread_create (length (workers p)) d n,
                Store_native_handler (Some (length (workers p))),
                Thread_detach (length (workers p))]"
  "workers (start_thread d n p) = workers p @ [(d, n)]"
  "native_handler (start_thread d n p) = Some (length (workers p))"
  "stdin (start_thread d n p) = stdin p"
  by (simp_all add: start_thread_def Let_def)

lemma stop_thread_fields:
  "trace (stop_thread p) =
     trace p @ [Pthread_cancel (native_handler p), Engine Simulator_Stop,
                Engine Simulator_Destroy]"
  "workers (stop_thread p) = workers p"
  "native_handler (stop_thread p) = native_handler p"
  "stdin (stop_thread p) = stdin p"
  by (simp_all add: stop_thread_def Let_def)

lemma restart_thread_fields:
  "trace (restart_thread d n p) =
     trace p @ [Pthread_cancel (native_handler p), Engine Simulator_Stop,
                Engine Simulator_Destroy,
                Thread_create (length (workers p)) d n,
                Store_native_handler (Some (length (workers p))),
                Thread_detach (length (workers p))]"
  "workers (restart_thread d n p) = workers p @ [(d, n)]"
  "native_handler (restart_thread d n p) = Some (length (workers p))"
  "stdin (restart_thread d n p) = stdin p"
  by (simp_all add: restart_thread_def start_thread_fields stop_thread_fields)

subsection \<open>Runs of \<open>main\<close> on short inputs\<close>

lemmas run_defs = main_def main_init_def process_start_def emit_def start_thread_def
  main_iter_def scanf_s_def isspace_def dispatch_def if_stop_def if_chgd_def if_chgn_def
  strcmp_eq_def cstr_def scanf_d_def isdigit_def digits_val_def digit_val_def
  INT_MIN_def INT_MAX_def restart_thread_def stop_thread_def Let_def

text \<open>Two turns of the loop on the input \<open>chgd 50 stop\<close>.\<close>

lemma main_example:
  "main 2 [] ''chgd 50 stop '' =
     Inr (\<lparr>n_nodes = 3, delay = 50, in_buf = []\<rparr>,
          \<lparr>native_handler = Some 1, workers = [(0, 3), (50, 3)],
           trace = [CommandLine_Parse,
                    Thread_create 0 0 3, Store_native_handler (Some 0), Thread_detach 0,
                    Printf ''> '', Printf ''delay > '',
                    Pthread_cancel (Some 0), Engine Simulator_Stop, Engine Simulator_Destroy,
                    Thread_create 1 50 3, Store_native_handler (Some 1), Thread_detach 1,
                    Printf ''> '', Printf ''stopping\<newline>'',
                    Pthread_cancel (Some 1), Engine Simulator_Stop, Engine Simulator_Destroy],
           stdin = '' ''\<rparr>)"
  by (simp add: run_defs numeral_2_eq_2)

text \<open>One turn on \<open>chgd 50\<close>.\<close>

lemma main_chgd_fifty:
  "main 1 [] ''chgd 50 '' =
     Inr (\<lparr>n_nodes = 3, delay = 50, in_buf = []\<rparr>,
          \<lparr>native_handler = Some 1, workers = [(0, 3), (50, 3)],
           trace = [CommandLine_Parse,
                    Thread_create 0 0 3, Store_native_handler (Some 0), Thread_detach 0,
                    Printf ''> '', Printf ''delay > '',
                    Pthread_cancel (Some 0), Engine Simulator_Stop, Engine Simulator_Destroy,
                    Thread_create 1 50 3, Store_native_handler (Some 1), Thread_detach 1],
           stdin = '' ''\<rparr>)"
  by (simp add: run_defs)

text \<open>Two turns on \<open>stop stop\<close>: the second \<open>stop\<close> finds no session running.\<close>

lemma main_stop_twice:
  "main 2 [] ''stop stop '' =
     Inr (\<lparr>n_nodes = 3, delay = 0, in_buf = []\<rparr>,
          \<lparr>native_handler = Some 0, workers = [(0, 3)],
           trace = [CommandLine_Parse,
                    Thread_create 0 0 3, Store_native_handler (Some 0), Thread_detach 0,
                    Printf ''> '', Printf ''stopping\<newline>'',
                    Pthread_cancel (Some 0), Engine Simulator_Stop, Engine Simulator_Destroy,
                    Printf ''> '', Printf ''stopping\<newline>'',
                    Pthread_cancel (Some 0), Engine Simulator_Stop, Engine Simulator_Destroy],
           stdin = '' ''\<rparr>)"
  by (simp add: run_defs numeral_2_eq_2)

text \<open>One turn on \<open>chgn 0\<close>, and one on \<open>chgd -5\<close>: the numbers go to \<open>start_thread\<close> as typed.\<close>

lemma main_chgn_zero:
  "main 1 [] ''chgn 0 '' =
     Inr (\<lparr>n_nodes = 0, delay = 0, in_buf = []\<rparr>,
          \<lparr>native_handler = Some 1, workers = [(0, 3), (0, 0)],
           trace = [CommandLine_Parse,
                    Thread_create 0 0 3, Store_native_handler (Some 0), Thread_detach 0,
                    Printf ''> '', Printf ''n nodes > '',
                    Pthread_cancel (Some 0), Engine Simulator_Stop, Engine Simulator_Destroy,
                    Thread_create 1 0 0, Store_native_handler (Some 1), Thread_detach 1],
           stdin = '' ''\<rparr>)"
  by (simp add: run_defs)

lemma main_chgd_negative:
  "main 1 [] ''chgd -5 '' =
     Inr (\<lparr>n_nodes = 3, delay = - 5, in_buf = []\<rparr>,
          \<lparr>native_handler = Some 1, workers = [(0, 3), (- 5, 3)],
           trace = [CommandLine_Parse,
                    Thread_create 0 0 3, Store_native_handler (Some 0), Thread_detach 0,
                    Printf ''> '', Printf ''delay > '',
                    Pthread_cancel (Some 0), Engine Simulator_Stop, Engine Simulator_Destroy,
                    Thread_create 1 (- 5) 3, Store_native_handler (Some 1), Thread_detach 1],
           stdin = '' ''\<rparr>)"
  by (simp add: run_defs)

subsection \<open>The worker's calls\<close>

lemma sprintf_tap_nonneg: "0 \<le> i \<Longrightarrow> sprintf_tap i = ''tap'' @ dec (nat i) @ ''-ns''"
  by (simp add: sprintf_tap_def sprintf_d_def)

lemma bridge_loop_calls:
  "0 \<le> i \<Longrightarrow>
   bridge_loop i n cs =
     cs @ concat (map (\<lambda>k. [TapBridgeHelper_SetAttribute ''DeviceName''
                               (StringValue (''tap'' @ dec k @ ''-ns'')),
                             TapBridgeHelper_Install (int k) (int k)])
                      [nat i..<nat n])"
proof (induction i n cs rule: bridge_loop.induct)
  case (1 i n cs)
  show ?case
  proof (cases "i < n")
    case True
    with "1.prems" have lt: "nat i < nat n" and suc: "nat (i + 1) = Suc (nat i)"
      by simp_all
    have "bridge_loop i n cs =
            bridge_loop (i + 1) n
              (cs @ [TapBridgeHelper_SetAttribute ''DeviceName'' (StringValue (sprintf_tap i)),
                     TapBridgeHelper_Install i i])"
      using True by (subst bridge_loop.simps) simp
    then show ?thesis
      using "1.IH" [OF True] "1.prems" lt
      by (simp add: suc upt_conv_Cons sprintf_tap_nonneg)
  next
    case False
    then have "nat n \<le> nat i" by simp
    with False show ?thesis by (subst bridge_loop.simps) simp
  qed
qed

text \<open>A worker never asks the engine to stop: it runs it and, afterwards, destroys it.\<close>

lemma worker_never_stops_engine: "Simulator_Stop \<notin> set (ns3task d n)"
  by (auto simp: ns3task_def createSimulation_def bridge_loop_calls)

text \<open>
  C2. For a valid configuration (\<open>0 < n\<close> endpoints, delay \<open>0 \<le> d\<close>), the handle kept by
  \<open>start_thread\<close> is that of the thread it created, and this worker's calls are, in
  order: the engine is bound to the real-time implementation and checksums are switched
  off; \<open>n\<close> nodes are created; the channel delay is set to \<open>d\<close> milliseconds and one
  \<open>Install\<close> puts all nodes on one channel; for each \<open>i\<close> from 0 to \<open>n - 1\<close>, in
  increasing order, the device name is set to \<open>tap\<close>, the decimal digits of \<open>i\<close>,
  \<open>-ns\<close>, and node \<open>i\<close> is bridged with device \<open>i\<close>; then \<open>Simulator::Run\<close>
  and, once it returns, \<open>Simulator::Destroy\<close>.
\<close>

theorem worker_runs_createSimulation:
  assumes "0 < n" and "0 \<le> d"
  shows "native_handler (start_thread d n p) = Some (length (workers p)) \<and>
         worker_program (start_thread d n p) (length (workers p)) =
           [GlobalValue_Bind ''SimulatorImplementationType'' (StringValue ''ns3::RealtimeSimulatorImpl''),
            GlobalValue_Bind ''ChecksumEnabled'' (BooleanValue False),
            NodeContainer_Create n,
            CsmaHelper_SetChannelAttribute ''Delay'' (TimeValue_MilliSeconds d),
            CsmaHelper_Install,
            TapBridgeHelper_SetAttribute ''Mode'' (StringValue ''UseLocal'')]
           @ concat (map (\<lambda>i. [TapBridgeHelper_SetAttribute ''DeviceName''
                                   (StringValue (''tap'' @ dec i @ ''-ns'')),
                                 TapBridgeHelper_Install (int i) (int i)])
                         [0..<nat n])
           @ [Simulator_Run, Simulator_Destroy]"
proof -
  have "worker_program (start_thread d n p) (length (workers p)) = createSimulation d n"
    by (simp add: worker_program_def start_thread_fields ns3task_def)
  then show ?thesis
    by (simp add: createSimulation_def bridge_loop_calls start_thread_fields)
qed

text \<open>With no delay and three endpoints the names are tap0-ns, tap1-ns and tap2-ns.\<close>

theorem worker_runs_createSimulation_witness:
  "native_handler (start_thread 0 3 (process_start [])) = Some 0 \<and>
   worker_program (start_thread 0 3 (process_start [])) 0 =
     [GlobalValue_Bind ''SimulatorImplementationType'' (StringValue ''ns3::RealtimeSimulatorImpl''),
      GlobalValue_Bind ''ChecksumEnabled'' (BooleanValue False),
      NodeContainer_Create 3,
      CsmaHelper_SetChannelAttribute ''Delay'' (TimeValue_MilliSeconds 0),
      CsmaHelper_Install,
      TapBridgeHelper_SetAttribute ''Mode'' (StringValue ''UseLocal''),
      TapBridgeHelper_SetAttribute ''DeviceName'' (StringValue ''tap0-ns''),
      TapBridgeHelper_Install 0 0,
      TapBridgeHelper_SetAttribute ''DeviceName'' (StringValue ''tap1-ns''),
      TapBridgeHelper_Install 1 1,
      TapBridgeHelper_SetAttribute ''DeviceName'' (StringValue ''tap2-ns''),
      TapBridgeHelper_Install 2 2,
      Simulator_Run, Simulator_Destroy]"
proof -
  have three: "[0..<3] = [0, Suc 0, 2]"
    by (simp add: numeral_3_eq_3 numeral_2_eq_2 upt_rec)
  have names: "dec 0 = ''0''" "dec (Suc 0) = ''1''" "dec 2 = ''2''"
    by (simp_all add: dec.simps digit_char_def)
  show ?thesis
    using worker_runs_createSimulation [of 3 0 "process_start []"]
    by (simp add: process_start_def three names)
qed

subsection \<open>\<open>start_thread\<close>, \<open>stop_thread\<close> and \<open>restart_thread\<close>\<close>

lemma running_sessions_append:
  "running_sessions (cs @ ds) = foldl session_step (running_sessions cs) ds"
  by (simp add: running_sessions_def)

lemma running_sessions_Nil [simp]: "running_sessions [] = []"
  by (simp add: running_sessions_def)

text \<open>
  C1, as the claim states it, fails: \<open>start_thread\<close> has no check. Called with no
  endpoint at all it creates a thread and overwrites the handle; called with a delay
  of \<open>- 5\<close> it does the same. Nothing on the way from the input checks the numbers
  either: the commands \<open>chgn 0\<close> and \<open>chgd -5\<close> start such workers.
\<close>

theorem start_rejects_nothing_counterexample:
  "start_thread 0 0 (process_start []) \<noteq> process_start [] \<and>
   workers (start_thread 0 0 (process_start [])) = [(0, 0)] \<and>
   native_handler (process_start []) = None \<and>
   native_handler (start_thread 0 0 (process_start [])) = Some 0 \<and>
   workers (start_thread (- 5) 3 (process_start [])) = [(- 5, 3)] \<and>
   native_handler (start_thread (- 5) 3 (process_start [])) = Some 0 \<and>
   main 1 [] ''chgn 0 '' =
     Inr (\<lparr>n_nodes = 0, delay = 0, in_buf = []\<rparr>,
          \<lparr>native_handler = Some 1, workers = [(0, 3), (0, 0)],
           trace = [CommandLine_Parse,
                    Thread_create 0 0 3, Store_native_handler (Some 0), Thread_detach 0,
                    Printf ''> '', Printf ''n nodes > '',
                    Pthread_cancel (Some 0), Engine Simulator_Stop, Engine Simulator_Destroy,
                    Thread_create 1 0 0, Store_native_handler (Some 1), Thread_detach 1],
           stdin = '' ''\<rparr>) \<and>
   main 1 [] ''chgd -5 '' =
     Inr (\<lparr>n_nodes = 3, delay = - 5, in_buf = []\<rparr>,
          \<lparr>native_handler = Some 1, workers = [(0, 3), (- 5, 3)],
           trace = [CommandLine_Parse,
                    Thread_create 0 0 3, Store_native_handler (Some 0), Thread_detach 0,
                    Printf ''> '', Printf ''delay > '',
                    Pthread_cancel (Some 0), Engine Simulator_Stop, Engine Simulator_Destroy,
                    Thread_create 1 (- 5) 3, Store_native_handler (Some 1), Thread_detach 1],
           stdin = '' ''\<rparr>)"
proof -
  have "workers (start_thread 0 0 (process_start [])) \<noteq> workers (process_start [])"
    by (simp add: start_thread_fields process_start_def)
  then have "start_thread 0 0 (process_start []) \<noteq> process_start []"
    by auto
  then show ?thesis
    using main_chgn_zero main_chgd_negative
    by (simp add: start_thread_fields process_start_def)
qed

text \<open>
  C1, amended. For every delay and every number of endpoints, valid or not,
  \<open>start_thread\<close> creates a thread on \<open>ns3task\<close> with exactly these two arguments,
  stores its handle in \<open>native_handler\<close> and detaches it. It has no other outcome: it
  never refuses a configuration.
\<close>

theorem start_thread_always_starts:
  "start_thread d n p =
     p\<lparr>native_handler := Some (length (workers p)),
       workers := workers p @ [(d, n)],
       trace := trace p @ [Thread_create (length (workers p)) d n,
                           Store_native_handler (Some (length (workers p))),
                           Thread_detach (length (workers p))]\<rparr>"
  by (simp add: start_thread_def emit_def Let_def)

theorem start_thread_always_starts_witness:
  "start_thread (- 5) 0 (process_start ''x'') =
     \<lparr>native_handler = Some 0, workers = [(- 5, 0)],
      trace = [Thread_create 0 (- 5) 0, Store_native_handler (Some 0), Thread_detach 0],
      stdin = ''x''\<rparr>"
  using start_thread_always_starts [of "- 5" 0 "process_start ''x''"]
  by (simp add: process_start_def)

text \<open>
  C3. \<open>restart_thread\<close> with a new configuration is \<open>stop_thread\<close> followed by
  \<open>start_thread\<close> with that configuration. Afterwards the handle names the thread
  just created, and that thread runs \<open>ns3task\<close> on the new delay and the new number of
  endpoints, both taken from the call.
\<close>

theorem restart_is_stop_then_start:
  "restart_thread d n p = start_thread d n (stop_thread p) \<and>
   native_handler (restart_thread d n p) = Some (length (workers p)) \<and>
   workers (restart_thread d n p) ! length (workers p) = (d, n) \<and>
   worker_program (restart_thread d n p) (length (workers p)) = ns3task d n"
  by (simp add: restart_thread_fields worker_program_def) (simp add: restart_thread_def)

theorem restart_is_stop_then_start_witness:
  "restart_thread 50 3 (start_thread 0 2 (process_start [])) =
     start_thread 50 3 (stop_thread (start_thread 0 2 (process_start []))) \<and>
   native_handler (restart_thread 50 3 (start_thread 0 2 (process_start []))) = Some 1 \<and>
   workers (restart_thread 50 3 (start_thread 0 2 (process_start []))) = [(0, 2), (50, 3)]"
  using restart_is_stop_then_start [of 50 3 "start_thread 0 2 (process_start [])"]
  by (simp add: start_thread_fields stop_thread_fields restart_thread_fields process_start_def)

text \<open>
  C4. Every call of \<open>stop_thread\<close> adds three calls to those of the controller and
  changes nothing else: first the cancellation of the thread named by
  \<open>native_handler\<close>, then \<open>Simulator::Stop\<close>, then \<open>Simulator::Destroy\<close>. The
  request to stop the engine comes from the controller only: no worker calls
  \<open>Simulator::Stop\<close>.
\<close>

theorem stop_cancels_then_stops_engine:
  "stop_thread p =
     p\<lparr>trace := trace p @ [Pthread_cancel (native_handler p),
                           Engine Simulator_Stop,
                           Engine Simulator_Destroy]\<rparr> \<and>
   Simulator_Stop \<notin> set (ns3task d n)"
  by (simp add: stop_thread_def emit_def Let_def worker_never_stops_engine)

theorem stop_cancels_then_stops_engine_witness:
  "trace (stop_thread (start_thread 0 3 (process_start []))) =
     [Thread_create 0 0 3, Store_native_handler (Some 0), Thread_detach 0,
      Pthread_cancel (Some 0), Engine Simulator_Stop, Engine Simulator_Destroy]"
  using stop_cancels_then_stops_engine [of "start_thread 0 3 (process_start [])" 0 3]
  by (simp add: start_thread_fields process_start_def)

text \<open>
  C6, as the claim states it, fails: \<open>stop_thread\<close> has no guard. After a start and
  a stop no session is running, and a second \<open>stop_thread\<close> still cancels the handle
  of the stopped worker and calls \<open>Simulator::Stop\<close> and \<open>Simulator::Destroy\<close> again.
  The input \<open>stop stop\<close> makes \<open>main\<close> do so.
\<close>

theorem stop_when_stopped_counterexample:
  "status_of (stop_thread (start_thread 0 3 (process_start []))) = Stopped \<and>
   stop_thread (stop_thread (start_thread 0 3 (process_start []))) \<noteq>
     stop_thread (start_thread 0 3 (process_start [])) \<and>
   trace (stop_thread (stop_thread (start_thread 0 3 (process_start [])))) =
     trace (stop_thread (start_thread 0 3 (process_start [])))
       @ [Pthread_cancel (Some 0), Engine Simulator_Stop, Engine Simulator_Destroy] \<and>
   main 2 [] ''stop stop '' =
     Inr (\<lparr>n_nodes = 3, delay = 0, in_buf = []\<rparr>,
          \<lparr>native_handler = Some 0, workers = [(0, 3)],
           trace = [CommandLine_Parse,
                    Thread_create 0 0 3, Store_native_handler (Some 0), Thread_detach 0,
                    Printf ''> '', Printf ''stopping\<newline>'',
                    Pthread_cancel (Some 0), Engine Simulator_Stop, Engine Simulator_Destroy,
                    Printf ''> '', Printf ''stopping\<newline>'',
                    Pthread_cancel (Some 0), Engine Simulator_Stop, Engine Simulator_Destroy],
           stdin = '' ''\<rparr>)"
proof -
  let ?p = "stop_thread (start_thread 0 3 (process_start []))"
  have "trace (stop_thread ?p) \<noteq> trace ?p"
    by (simp add: stop_thread_fields)
  then have "stop_thread ?p \<noteq> ?p" by auto
  then show ?thesis
    using main_stop_twice
    by (simp add: status_of_def running_sessions_def stop_thread_fields start_thread_fields
        process_start_def)
qed

text \<open>
  C6, amended. When no session is running, \<open>stop_thread\<close> leaves the status at
  \<open>Stopped\<close> and keeps the handle, the threads and the input as they are; it is not
  without effect, since it repeats its three calls on the handle it still holds.
\<close>

theorem stop_when_stopped:
  assumes "status_of p = Stopped"
  shows "status_of (stop_thread p) = Stopped \<and>
         native_handler (stop_thread p) = native_handler p \<and>
         workers (stop_thread p) = workers p \<and>
         stdin (stop_thread p) = stdin p \<and>
         trace (stop_thread p) =
           trace p @ [Pthread_cancel (native_handler p), Engine Simulator_Stop,
                      Engine Simulator_Destroy]"
  using assms
  by (simp add: status_of_def stop_thread_fields running_sessions_append split: if_splits)

theorem stop_when_stopped_witness:
  "status_of (stop_thread (start_thread 0 3 (process_start []))) = Stopped \<and>
   status_of (stop_thread (stop_thread (start_thread 0 3 (process_start [])))) = Stopped \<and>
   native_handler (stop_thread (stop_thread (start_thread 0 3 (process_start [])))) = Some 0"
proof -
  have st: "status_of (stop_thread (start_thread 0 3 (process_start []))) = Stopped"
    by (simp add: status_of_def running_sessions_def stop_thread_fields start_thread_fields
        process_start_def)
  show ?thesis
    using st stop_when_stopped [OF st]
    by (simp add: stop_thread_fields start_thread_fields process_start_def)
qed

subsection \<open>One turn of the command loop\<close>

lemma cstr_literals [simp]:
  "cstr ''stop'' = ''stop''" "cstr ''chgd'' = ''chgd''" "cstr ''chgn'' = ''chgn''"
  by (simp_all add: cstr_def)

lemma cstr_idem [simp]: "cstr (cstr s) = cstr s"
  by (simp add: cstr_def takeWhile_idem)

lemma cstr_Nil [simp]: "cstr [] = []"
  by (simp add: cstr_def)

lemma dispatch_stop:
  "cstr b = ''stop'' \<Longrightarrow>
   dispatch (f\<lparr>in_buf := b\<rparr>, p) =
     Inr (f\<lparr>in_buf := []\<rparr>, stop_thread (emit (Printf ''stopping\<newline>'') p))"
  by (simp add: dispatch_def if_stop_def if_chgd_def if_chgn_def strcmp_eq_def)

lemma dispatch_other:
  "cstr b \<noteq> ''stop'' \<Longrightarrow> cstr b \<noteq> ''chgd'' \<Longrightarrow> cstr b \<noteq> ''chgn'' \<Longrightarrow>
   dispatch (f\<lparr>in_buf := b\<rparr>, p) = Inr (f\<lparr>in_buf := []\<rparr>, p)"
  by (simp add: dispatch_def if_stop_def if_chgd_def if_chgn_def strcmp_eq_def)

lemma dispatch_chgd:
  "cstr b = ''chgd'' \<Longrightarrow> scanf_d (stdin p) = (Assigned d, rest) \<Longrightarrow>
   INT_MIN \<le> d \<Longrightarrow> d \<le> INT_MAX \<Longrightarrow>
   dispatch (f\<lparr>in_buf := b\<rparr>, p) =
     Inr (f\<lparr>delay := d, in_buf := []\<rparr>,
          restart_thread d (n_nodes f) ((emit (Printf ''delay > '') p)\<lparr>stdin := rest\<rparr>))"
  by (simp add: dispatch_def if_stop_def if_chgd_def if_chgn_def strcmp_eq_def)

lemma dispatch_chgn:
  "cstr b = ''chgn'' \<Longrightarrow> scanf_d (stdin p) = (Assigned v, rest) \<Longrightarrow>
   INT_MIN \<le> v \<Longrightarrow> v \<le> INT_MAX \<Longrightarrow>
   dispatch (f\<lparr>in_buf := b\<rparr>, p) =
     Inr (f\<lparr>n_nodes := v, in_buf := []\<rparr>,
          restart_thread (delay f) v ((emit (Printf ''n nodes > '') p)\<lparr>stdin := rest\<rparr>))"
  by (simp add: dispatch_def if_stop_def if_chgd_def if_chgn_def strcmp_eq_def)

text \<open>
  C5. When the token read is \<open>chgd\<close> and \<open>scanf\<close> then reads the integer \<open>d\<close> (within
  the range of \<open>int\<close>), the turn of the loop prints its two prompts, stores \<open>d\<close> in
  \<open>delay\<close> and calls \<open>restart_thread\<close> with \<open>d\<close> and the number of endpoints it holds,
  which it leaves as it is.
\<close>

theorem chgd_restarts_with_new_delay:
  assumes "scanf_s (stdin p) = (Assigned ''chgd'', rest)"
    and "scanf_d rest = (Assigned d, rest')"
    and "INT_MIN \<le> d" and "d \<le> INT_MAX"
  shows "main_iter (f, p) =
           Inr (f\<lparr>delay := d, in_buf := []\<rparr>,
                restart_thread d (n_nodes f)
                  (p\<lparr>trace := trace p @ [Printf ''> '', Printf ''delay > ''], stdin := rest'\<rparr>))"
proof -
  have "main_iter (f, p) = dispatch (f\<lparr>in_buf := ''chgd''\<rparr>, (emit (Printf ''> '') p)\<lparr>stdin := rest\<rparr>)"
    using assms(1) by (simp add: main_iter_def)
  also have "\<dots> = Inr (f\<lparr>delay := d, in_buf := []\<rparr>,
       restart_thread d (n_nodes f)
         ((emit (Printf ''delay > '') ((emit (Printf ''> '') p)\<lparr>stdin := rest\<rparr>))\<lparr>stdin := rest'\<rparr>))"
    using assms(2-4) by (subst dispatch_chgd [where d = d and rest = rest']) simp_all
  finally show ?thesis
    by (simp add: emit_def)
qed

lemma scan_examples:
  "scanf_s ''chgd\<newline>50\<newline>'' = (Assigned ''chgd'', ''\<newline>50\<newline>'')"
  "scanf_d ''\<newline>50\<newline>'' = (Assigned 50, ''\<newline>'')"
  by (simp_all add: scanf_s_def scanf_d_def isspace_def isdigit_def digits_val_def digit_val_def)

text \<open>The input \<open>chgd\<close>, \<open>50\<close> with three endpoints running: \<open>restart_thread 50 3\<close>.\<close>

theorem chgd_restarts_with_new_delay_witness:
  "main_iter (\<lparr>n_nodes = 3, delay = 0, in_buf = []\<rparr>, start_thread 0 3 (process_start ''chgd\<newline>50\<newline>'')) =
     Inr (\<lparr>n_nodes = 3, delay = 50, in_buf = []\<rparr>,
          restart_thread 50 3
            \<lparr>native_handler = Some 0, workers = [(0, 3)],
             trace = [Thread_create 0 0 3, Store_native_handler (Some 0), Thread_detach 0,
                      Printf ''> '', Printf ''delay > ''],
             stdin = ''\<newline>''\<rparr>)"
proof -
  have a: "scanf_s (stdin (start_thread 0 3 (process_start ''chgd\<newline>50\<newline>''))) =
             (Assigned ''chgd'', ''\<newline>50\<newline>'')"
    by (simp add: start_thread_fields process_start_def scan_examples)
  have b: "INT_MIN \<le> 50" "50 \<le> INT_MAX"
    by (simp_all add: INT_MIN_def INT_MAX_def)
  show ?thesis
    using chgd_restarts_with_new_delay [OF a scan_examples(2) b,
        of "\<lparr>n_nodes = 3, delay = 0, in_buf = []\<rparr>"]
    by (simp add: start_thread_fields process_start_def start_thread_def emit_def)
qed

text \<open>
  A token of fewer than 1024 characters whose text (up to a NUL byte, if it has one)
  is none of \<open>stop\<close>, \<open>chgd\<close>, \<open>chgn\<close> is ignored: the turn prints the prompt,
  consumes the token, calls nothing and leaves \<open>delay\<close> and \<open>n_nodes\<close> as they are.
\<close>

lemma other_token_ignored:
  assumes "scanf_s (stdin p) = (Assigned tok, rest)"
    and "length tok < 1024"
    and "cstr tok \<noteq> ''stop''" and "cstr tok \<noteq> ''chgd''" and "cstr tok \<noteq> ''chgn''"
  shows "main_iter (f, p) =
           Inr (f\<lparr>in_buf := []\<rparr>, p\<lparr>trace := trace p @ [Printf ''> ''], stdin := rest\<rparr>)"
  using assms by (simp add: main_iter_def dispatch_other emit_def)

lemma scanf_s_long_token:
  "scanf_s (replicate 1024 (CHR ''a'') @ ''\<newline>'') = (Assigned (replicate 1024 (CHR ''a'')), ''\<newline>'')"
proof -
  have a: "\<not> isspace (CHR ''a'')" and nl: "isspace (CHR ''\<newline>'')"
    by (simp_all add: isspace_def)
  have ne: "replicate 1024 (CHR ''a'') \<noteq> []" by simp
  have d: "dropWhile isspace (replicate 1024 (CHR ''a'') @ ''\<newline>'') = replicate 1024 (CHR ''a'') @ ''\<newline>''"
    using a by (simp add: dropWhile_append)
  have t: "takeWhile (\<lambda>c. \<not> isspace c) (replicate 1024 (CHR ''a'') @ ''\<newline>'') = replicate 1024 (CHR ''a'')"
    using a nl by (simp add: takeWhile_append)
  have r: "dropWhile (\<lambda>c. \<not> isspace c) (replicate 1024 (CHR ''a'') @ ''\<newline>'') = ''\<newline>''"
    using a nl by (simp add: dropWhile_append)
  show ?thesis
    unfolding scanf_s_def Let_def d t r using ne by simp
qed

text \<open>
  C8 at a token of 1024 letters \<open>a\<close>, which is none of the three commands: the array
  \<open>in\<close> has room for 1023 characters and the closing NUL, so \<open>scanf\<close> writes past its
  end and the turn has no defined outcome.
\<close>

theorem long_token_overflows_in:
  "main_iter (f, p\<lparr>stdin := replicate 1024 (CHR ''a'') @ ''\<newline>''\<rparr>) = Inl Buffer_overflow"
  by (simp add: main_iter_def scanf_s_long_token)

subsection \<open>Every state of the loop comes from stops and restarts\<close>

lemma if_stop_reach:
  "loop_reach p0 p \<Longrightarrow> if_stop (f, p) = (f', p') \<Longrightarrow> loop_reach p0 p'"
  by (auto simp: if_stop_def split: if_splits
      intro!: loop_reach.stops loop_reach.prints)

lemma if_chgd_reach:
  "loop_reach p0 p \<Longrightarrow> if_chgd (f, p) = Inr (f', p') \<Longrightarrow> loop_reach p0 p'"
  by (auto simp: if_chgd_def Let_def split: if_splits prod.splits scanned.splits
      intro!: loop_reach.restarts loop_reach.reads loop_reach.prints)

lemma if_chgn_reach:
  "loop_reach p0 p \<Longrightarrow> if_chgn (f, p) = Inr (f', p') \<Longrightarrow> loop_reach p0 p'"
  by (auto simp: if_chgn_def Let_def split: if_splits prod.splits scanned.splits
      intro!: loop_reach.restarts loop_reach.reads loop_reach.prints)

lemma dispatch_reach:
  assumes "loop_reach p0 p" and "dispatch (f, p) = Inr (f', p')"
  shows "loop_reach p0 p'"
proof -
  obtain f1 p1 where s1: "if_stop (f, p) = (f1, p1)"
    by (cases "if_stop (f, p)")
  with assms(2) obtain f2 p2 where s2: "if_chgd (f1, p1) = Inr (f2, p2)"
    by (cases "if_chgd (f1, p1)") (auto simp: dispatch_def)
  with s1 assms(2) obtain f3 where s3: "if_chgn (f2, p2) = Inr (f3, p')"
    by (cases "if_chgn (f2, p2)") (auto simp: dispatch_def)
  from assms(1) s1 have "loop_reach p0 p1" by (rule if_stop_reach)
  then have "loop_reach p0 p2" using s2 by (rule if_chgd_reach)
  then show ?thesis using s3 by (rule if_chgn_reach)
qed

lemma main_iter_reach:
  assumes "loop_reach p0 p" and "main_iter (f, p) = Inr (f', p')"
  shows "loop_reach p0 p'"
proof -
  obtain r rest where sc: "scanf_s (stdin p) = (r, rest)"
    by (cases "scanf_s (stdin p)")
  have q: "loop_reach p0 ((emit (Printf ''> '') p)\<lparr>stdin := rest\<rparr>)"
    using assms(1) by (intro loop_reach.reads loop_reach.prints)
  from assms(2) sc obtain g where
    "dispatch (g, (emit (Printf ''> '') p)\<lparr>stdin := rest\<rparr>) = Inr (f', p')"
    by (cases r) (auto simp: main_iter_def split: if_splits)
  with q show ?thesis by (rule dispatch_reach)
qed

lemma main_loop_reach:
  "loop_reach p0 p \<Longrightarrow> main_loop k (f, p) = Inr (f', p') \<Longrightarrow> loop_reach p0 p'"
proof (induction k arbitrary: f p)
  case 0
  then show ?case by simp
next
  case (Suc k)
  from Suc.prems(2) obtain f1 p1 where it: "main_iter (f, p) = Inr (f1, p1)"
    and rest: "main_loop k (f1, p1) = Inr (f', p')"
    by (cases "main_iter (f, p)") auto
  from Suc.prems(1) it have "loop_reach p0 p1" by (rule main_iter_reach)
  then show ?case using rest by (rule Suc.IH)
qed

lemma main_reach:
  assumes "main k in0 inp = Inr (f, p)"
  shows "loop_reach (start_thread 0 3 (emit CommandLine_Parse (process_start inp))) p"
  using assms loop_reach.here
  by (auto simp: main_def main_init_def Let_def intro: main_loop_reach)

subsection \<open>At most one session at a time\<close>

lemma all_prefixes_snoc:
  "(\<forall>pre suf. xs @ [x] = pre @ suf \<longrightarrow> P pre) \<longleftrightarrow>
   (\<forall>pre suf. xs = pre @ suf \<longrightarrow> P pre) \<and> P (xs @ [x])"
proof (intro iffI conjI allI impI)
  fix pre suf
  assume a: "\<forall>pre suf. xs @ [x] = pre @ suf \<longrightarrow> P pre" and "xs = pre @ suf"
  then have "xs @ [x] = pre @ (suf @ [x])" by simp
  with a show "P pre" by blast
next
  assume "\<forall>pre suf. xs @ [x] = pre @ suf \<longrightarrow> P pre"
  then show "P (xs @ [x])" by (metis append_Nil2)
next
  fix pre suf
  assume b: "(\<forall>pre suf. xs = pre @ suf \<longrightarrow> P pre) \<and> P (xs @ [x])"
    and e: "xs @ [x] = pre @ suf"
  show "P pre"
  proof (cases suf rule: rev_cases)
    case Nil
    with e b show ?thesis by simp
  next
    case (snoc suf' y)
    with e have "xs = pre @ suf'" by simp
    with b show ?thesis by blast
  qed
qed

lemma running_sessions_snoc:
  "running_sessions (cs @ [c]) = session_step (running_sessions cs) c"
  by (simp add: running_sessions_def)

lemma one_session_bound: "one_session cs h \<Longrightarrow> length (running_sessions cs) \<le> 1"
  unfolding one_session_def by (metis append_Nil2)

lemma one_session_quiet:
  assumes "one_session cs h" and "session_step (running_sessions cs) c = running_sessions cs"
  shows "one_session (cs @ [c]) h"
  using assms one_session_bound [OF assms(1)]
  unfolding one_session_def all_prefixes_snoc running_sessions_snoc by simp

lemma one_session_cancel:
  assumes "one_session cs h"
  shows "one_session (cs @ [Pthread_cancel h]) h'"
    and "running_sessions (cs @ [Pthread_cancel h]) = []"
proof -
  have "filter (\<lambda>t. h \<noteq> Some t) (running_sessions cs) = []"
    using assms unfolding one_session_def by (auto simp: filter_empty_conv)
  then show "running_sessions (cs @ [Pthread_cancel h]) = []"
    by (simp add: running_sessions_snoc)
  then show "one_session (cs @ [Pthread_cancel h]) h'"
    using assms unfolding one_session_def all_prefixes_snoc by simp
qed

lemma one_session_create:
  assumes "one_session cs h" and "running_sessions cs = []"
  shows "one_session (cs @ [Thread_create t d n]) (Some t)"
  using assms unfolding one_session_def all_prefixes_snoc running_sessions_snoc by simp

lemma one_session_handle:
  assumes "one_session cs h" and "running_sessions cs = [t]"
  shows "one_session cs (Some t)"
  using assms unfolding one_session_def by simp

lemma three_snoc: "xs @ [a, b, c] = ((xs @ [a]) @ [b]) @ [c]"
  by simp

lemma one_session_stop:
  assumes "one_session (trace q) (native_handler q)"
  shows "one_session (trace (stop_thread q)) h'"
    and "running_sessions (trace (stop_thread q)) = []"
proof -
  let ?c = "trace q @ [Pthread_cancel (native_handler q)]"
  have c: "one_session ?c h'" and r: "running_sessions ?c = []"
    using assms by (rule one_session_cancel)+
  have s: "one_session (?c @ [Engine Simulator_Stop]) h'"
    using c by (rule one_session_quiet) simp
  have "one_session ((?c @ [Engine Simulator_Stop]) @ [Engine Simulator_Destroy]) h'"
    using s by (rule one_session_quiet) simp
  then show "one_session (trace (stop_thread q)) h'"
    by (simp add: stop_thread_fields)
  show "running_sessions (trace (stop_thread q)) = []"
    using r by (simp add: stop_thread_fields three_snoc running_sessions_snoc del: append_assoc append.simps)
qed

lemma one_session_start:
  assumes "one_session (trace q) h" and "running_sessions (trace q) = []"
  shows "one_session (trace (start_thread d n q)) (native_handler (start_thread d n q))"
proof -
  let ?t = "length (workers q)"
  let ?c = "trace q @ [Thread_create ?t d n]"
  have c: "one_session ?c (Some ?t)"
    using assms by (rule one_session_create)
  have s: "one_session (?c @ [Store_native_handler (Some ?t)]) (Some ?t)"
    using c by (rule one_session_quiet) simp
  have "one_session ((?c @ [Store_native_handler (Some ?t)]) @ [Thread_detach ?t]) (Some ?t)"
    using s by (rule one_session_quiet) simp
  then show ?thesis
    by (simp add: start_thread_fields)
qed

lemma one_session_loop_reach:
  assumes "loop_reach p0 q" and "one_session (trace p0) (native_handler p0)"
  shows "one_session (trace q) (native_handler q)"
  using assms
proof (induction rule: loop_reach.induct)
  case (here p)
  then show ?case .
next
  case (prints p q s)
  then have "one_session (trace q @ [Printf s]) (native_handler q)"
    by (intro one_session_quiet) simp_all
  then show ?case by simp
next
  case (reads p q r)
  then show ?case by simp
next
  case (stops p q)
  then show ?case by (simp add: one_session_stop(1) stop_thread_fields(3))
next
  case (restarts p q d n)
  then have "one_session (trace q) (native_handler q)" by simp
  then have "one_session (trace (stop_thread q)) None"
    and "running_sessions (trace (stop_thread q)) = []"
    by (rule one_session_stop)+
  then show ?case unfolding restart_thread_def by (rule one_session_start)
qed

lemma one_session_entry:
  "one_session (trace (start_thread 0 3 (emit CommandLine_Parse (process_start inp))))
     (native_handler (start_thread 0 3 (emit CommandLine_Parse (process_start inp))))"
proof -
  have "one_session [] None"
    by (simp add: one_session_def)
  then have "one_session ([] @ [CommandLine_Parse]) None"
    by (rule one_session_quiet) simp
  then have "one_session (trace (emit CommandLine_Parse (process_start inp))) None"
    by (simp add: process_start_def)
  moreover have "running_sessions (trace (emit CommandLine_Parse (process_start inp))) = []"
    by (simp add: process_start_def running_sessions_def)
  ultimately show ?thesis by (rule one_session_start)
qed

text \<open>
  Every thread created can still exist, and a thread that exists was created. A thread
  created whose session is no longer running has been sent a cancellation.
\<close>

lemma alive_all_created: "alive_after cs (set (created_threads cs))"
proof (induction cs rule: rev_induct)
  case Nil
  show ?case by (simp add: created_threads_def alive_after.none)
next
  case (snoc c cs)
  from snoc have "alive_after (cs @ [c]) (set (created_threads cs) \<union> set (created_by c))"
    by (rule alive_after.call)
  then show ?case by (simp add: created_threads_def)
qed

lemma alive_created:
  "alive_after cs A \<Longrightarrow> A \<subseteq> set (created_threads cs)"
proof (induction rule: alive_after.induct)
  case none
  show ?case by simp
next
  case (call cs A c)
  then show ?case by (auto simp: created_threads_def)
next
  case (ended cs A t)
  then show ?case by auto
qed

lemma created_not_running_cancelled:
  "t \<in> set (created_threads cs) \<Longrightarrow> t \<notin> set (running_sessions cs) \<Longrightarrow>
   Pthread_cancel (Some t) \<in> set cs"
proof (induction cs rule: rev_induct)
  case Nil
  then show ?case by (simp add: created_threads_def)
next
  case (snoc c cs)
  then show ?case
    by (cases c) (auto simp: created_threads_def running_sessions_snoc)
qed

text \<open>
  C7, as the claim states it, fails in its second half. One turn of the loop on
  \<open>chgd 50\<close> cancels worker 0 and creates worker 1 at once; nothing waits for worker 0
  to end, so both worker threads can exist at the same moment.
\<close>

theorem two_workers_exist_counterexample:
  "main 1 [] ''chgd 50 '' =
     Inr (\<lparr>n_nodes = 3, delay = 50, in_buf = []\<rparr>,
          \<lparr>native_handler = Some 1, workers = [(0, 3), (50, 3)],
           trace = [CommandLine_Parse,
                    Thread_create 0 0 3, Store_native_handler (Some 0), Thread_detach 0,
                    Printf ''> '', Printf ''delay > '',
                    Pthread_cancel (Some 0), Engine Simulator_Stop, Engine Simulator_Destroy,
                    Thread_create 1 50 3, Store_native_handler (Some 1), Thread_detach 1],
           stdin = '' ''\<rparr>) \<and>
   alive_after
     [CommandLine_Parse,
      Thread_create 0 0 3, Store_native_handler (Some 0), Thread_detach 0,
      Printf ''> '', Printf ''delay > '',
      Pthread_cancel (Some 0), Engine Simulator_Stop, Engine Simulator_Destroy,
      Thread_create 1 50 3, Store_native_handler (Some 1), Thread_detach 1]
     {0, 1} \<and>
   card {0 :: tid, 1} = 2"
proof -
  have "alive_after
     [CommandLine_Parse,
      Thread_create 0 0 3, Store_native_handler (Some 0), Thread_detach 0,
      Printf ''> '', Printf ''delay > '',
      Pthread_cancel (Some 0), Engine Simulator_Stop, Engine Simulator_Destroy,
      Thread_create 1 50 3, Store_native_handler (Some 1), Thread_detach 1]
     (set (created_threads
     [CommandLine_Parse,
      Thread_create 0 0 3, Store_native_handler (Some 0), Thread_detach 0,
      Printf ''> '', Printf ''delay > '',
      Pthread_cancel (Some 0), Engine Simulator_Stop, Engine Simulator_Destroy,
      Thread_create 1 50 3, Store_native_handler (Some 1), Thread_detach 1]))"
    by (rule alive_all_created)
  moreover have "set (created_threads
     [CommandLine_Parse,
      Thread_create 0 0 3, Store_native_handler (Some 0), Thread_detach 0,
      Printf ''> '', Printf ''delay > '',
      Pthread_cancel (Some 0), Engine Simulator_Stop, Engine Simulator_Destroy,
      Thread_create 1 50 3, Store_native_handler (Some 1), Thread_detach 1]) = {0, 1}"
    by (auto simp: created_threads_def)
  ultimately show ?thesis
    using main_chgd_fifty by simp
qed

text \<open>
  C7, amended. Take any state that \<open>main\<close> reaches after any number of turns of its
  loop, on any input. After every initial part of the controller's calls up to that
  state, hence at every moment of the run, at most one session is running: at most one
  worker has been created and not yet been sent a cancellation by the controller. More
  worker threads than one can exist, and each that exists beside the running one has been
  sent \<open>pthread_cancel\<close>.
\<close>

theorem at_most_one_session_running:
  assumes "main k in0 inp = Inr (f, p)"
  shows "\<forall>pre suf. trace p = pre @ suf \<longrightarrow>
           length (running_sessions pre) \<le> 1 \<and>
           (\<forall>A t. alive_after pre A \<longrightarrow> t \<in> A \<longrightarrow> t \<notin> set (running_sessions pre) \<longrightarrow>
                  Pthread_cancel (Some t) \<in> set pre)"
proof -
  have "one_session (trace p) (native_handler p)"
    using main_reach [OF assms] one_session_entry by (rule one_session_loop_reach)
  then have "\<forall>pre suf. trace p = pre @ suf \<longrightarrow> length (running_sessions pre) \<le> 1"
    by (simp add: one_session_def)
  moreover have "Pthread_cancel (Some t) \<in> set pre"
    if "alive_after pre A" "t \<in> A" "t \<notin> set (running_sessions pre)" for pre A t
    using alive_created [OF that(1)] that(2,3) by (intro created_not_running_cancelled) auto
  ultimately show ?thesis by blast
qed

theorem at_most_one_session_running_witness:
  "main 2 [] ''chgd 50 stop '' =
     Inr (\<lparr>n_nodes = 3, delay = 50, in_buf = []\<rparr>,
          \<lparr>native_handler = Some 1, workers = [(0, 3), (50, 3)],
           trace = [CommandLine_Parse,
                    Thread_create 0 0 3, Store_native_handler (Some 0), Thread_detach 0,
                    Printf ''> '', Printf ''delay > '',
                    Pthread_cancel (Some 0), Engine Simulator_Stop, Engine Simulator_Destroy,
                    Thread_create 1 50 3, Store_native_handler (Some 1), Thread_detach 1,
                    Printf ''> '', Printf ''stopping\<newline>'',
                    Pthread_cancel (Some 1), Engine Simulator_Stop, Engine Simulator_Destroy],
           stdin = '' ''\<rparr>) \<and>
   alive_after
     [CommandLine_Parse,
      Thread_create 0 0 3, Store_native_handler (Some 0), Thread_detach 0,
      Printf ''> '', Printf ''delay > '',
      Pthread_cancel (Some 0), Engine Simulator_Stop, Engine Simulator_Destroy,
      Thread_create 1 50 3] {0, 1} \<and>
   running_sessions
     [CommandLine_Parse,
      Thread_create 0 0 3, Store_native_handler (Some 0), Thread_detach 0,
      Printf ''> '', Printf ''delay > '',
      Pthread_cancel (Some 0), Engine Simulator_Stop, Engine Simulator_Destroy,
      Thread_create 1 50 3] = [1] \<and>
   length (running_sessions
     [CommandLine_Parse,
      Thread_create 0 0 3, Store_native_handler (Some 0), Thread_detach 0,
      Printf ''> '', Printf ''delay > '',
      Pthread_cancel (Some 0), Engine Simulator_Stop, Engine Simulator_Destroy,
      Thread_create 1 50 3]) \<le> 1 \<and>
   Pthread_cancel (Some 0) \<in> set
     [CommandLine_Parse,
      Thread_create 0 0 3, Store_native_handler (Some 0), Thread_detach 0,
      Printf ''> '', Printf ''delay > '',
      Pthread_cancel (Some 0), Engine Simulator_Stop, Engine Simulator_Destroy,
      Thread_create 1 50 3]"
proof -
  let ?pre = "[CommandLine_Parse,
      Thread_create 0 0 3, Store_native_handler (Some 0), Thread_detach 0,
      Printf ''> '', Printf ''delay > '',
      Pthread_cancel (Some 0), Engine Simulator_Stop, Engine Simulator_Destroy,
      Thread_create 1 50 3]"
  let ?suf = "[Store_native_handler (Some 1), Thread_detach 1,
      Printf ''> '', Printf ''stopping\<newline>'',
      Pthread_cancel (Some 1), Engine Simulator_Stop, Engine Simulator_Destroy]"
  let ?p = "\<lparr>native_handler = Some 1, workers = [(0, 3), (50, 3)],
           trace = ?pre @ ?suf, stdin = '' ''\<rparr>"
  have m: "main 2 [] ''chgd 50 stop '' = Inr (\<lparr>n_nodes = 3, delay = 50, in_buf = []\<rparr>, ?p)"
    using main_example by simp
  have al: "alive_after ?pre {0, 1}"
    using alive_all_created [of ?pre] by (simp add: created_threads_def insert_commute)
  have rs: "running_sessions ?pre = [1]"
    by (simp add: running_sessions_def)
  have split: "trace ?p = ?pre @ ?suf" by simp
  from at_most_one_session_running [OF m] split
  have "length (running_sessions ?pre) \<le> 1 \<and>
        (\<forall>A t. alive_after ?pre A \<longrightarrow> t \<in> A \<longrightarrow> t \<notin> set (running_sessions ?pre) \<longrightarrow>
               Pthread_cancel (Some t) \<in> set ?pre)"
    by blast
  with al rs have "length (running_sessions ?pre) \<le> 1 \<and> Pthread_cancel (Some 0) \<in> set ?pre"
    by (metis insertI1 list.set_intros(1) list.simps(15) empty_set singletonD zero_neq_one)
  with m al rs show ?thesis by simp
qed

subsection \<open>The handle names the worker created last\<close>

lemma latest_created_snoc:
  "latest_created (cs @ [c]) = note_create (latest_created cs) c"
  by (simp add: latest_created_def)

lemma cancels_snoc:
  "(\<forall>pre h' suf. cs @ [c] = pre @ Pthread_cancel h' # suf \<longrightarrow> h' = latest_created pre) \<longleftrightarrow>
   (\<forall>pre h' suf. cs = pre @ Pthread_cancel h' # suf \<longrightarrow> h' = latest_created pre) \<and>
   (\<forall>h'. c = Pthread_cancel h' \<longrightarrow> h' = latest_created cs)"
proof (intro iffI conjI allI impI)
  fix pre h' suf
  assume a: "\<forall>pre h' suf. cs @ [c] = pre @ Pthread_cancel h' # suf \<longrightarrow> h' = latest_created pre"
    and "cs = pre @ Pthread_cancel h' # suf"
  then have "cs @ [c] = pre @ Pthread_cancel h' # (suf @ [c])" by simp
  with a show "h' = latest_created pre" by blast
next
  fix h'
  assume a: "\<forall>pre h' suf. cs @ [c] = pre @ Pthread_cancel h' # suf \<longrightarrow> h' = latest_created pre"
    and "c = Pthread_cancel h'"
  then have "cs @ [c] = cs @ Pthread_cancel h' # []" by simp
  with a show "h' = latest_created cs" by blast
next
  fix pre h' suf
  assume b: "(\<forall>pre h' suf. cs = pre @ Pthread_cancel h' # suf \<longrightarrow> h' = latest_created pre) \<and>
             (\<forall>h'. c = Pthread_cancel h' \<longrightarrow> h' = latest_created cs)"
    and e: "cs @ [c] = pre @ Pthread_cancel h' # suf"
  show "h' = latest_created pre"
  proof (cases suf rule: rev_cases)
    case Nil
    with e b show ?thesis by simp
  next
    case (snoc suf' y)
    with e have "cs = pre @ Pthread_cancel h' # suf'" by simp
    with b show ?thesis by blast
  qed
qed

lemma handle_latest_quiet:
  assumes "handle_latest cs h" and "note_create h c = h" and "\<And>h'. c \<noteq> Pthread_cancel h'"
  shows "handle_latest (cs @ [c]) h"
  using assms unfolding handle_latest_def cancels_snoc latest_created_snoc by simp

lemma handle_latest_cancel:
  assumes "handle_latest cs h"
  shows "handle_latest (cs @ [Pthread_cancel h]) h"
  using assms unfolding handle_latest_def cancels_snoc latest_created_snoc by simp

lemma handle_latest_create:
  assumes "handle_latest cs h"
  shows "handle_latest (cs @ [Thread_create t d n]) (Some t)"
  using assms unfolding handle_latest_def cancels_snoc latest_created_snoc by simp

lemma handle_latest_stop:
  assumes "handle_latest (trace q) (native_handler q)"
  shows "handle_latest (trace (stop_thread q)) (native_handler q)"
proof -
  let ?c = "trace q @ [Pthread_cancel (native_handler q)]"
  have c: "handle_latest ?c (native_handler q)"
    using assms by (rule handle_latest_cancel)
  have s: "handle_latest (?c @ [Engine Simulator_Stop]) (native_handler q)"
    using c by (rule handle_latest_quiet) simp_all
  have "handle_latest ((?c @ [Engine Simulator_Stop]) @ [Engine Simulator_Destroy]) (native_handler q)"
    using s by (rule handle_latest_quiet) simp_all
  then show ?thesis
    by (simp add: stop_thread_fields)
qed

lemma handle_latest_start:
  assumes "handle_latest (trace q) h"
  shows "handle_latest (trace (start_thread d n q)) (native_handler (start_thread d n q))"
proof -
  let ?t = "length (workers q)"
  let ?c = "trace q @ [Thread_create ?t d n]"
  have c: "handle_latest ?c (Some ?t)"
    using assms by (rule handle_latest_create)
  have s: "handle_latest (?c @ [Store_native_handler (Some ?t)]) (Some ?t)"
    using c by (rule handle_latest_quiet) simp_all
  have "handle_latest ((?c @ [Store_native_handler (Some ?t)]) @ [Thread_detach ?t]) (Some ?t)"
    using s by (rule handle_latest_quiet) simp_all
  then show ?thesis
    by (simp add: start_thread_fields)
qed

lemma slot_okI:
  "handle_latest (trace q) (native_handler q) \<Longrightarrow> workers q \<noteq> [] \<Longrightarrow>
   native_handler q = Some (length (workers q) - 1) \<Longrightarrow> slot_ok q"
  unfolding slot_ok_def by (intro conjI)

lemma slot_okD:
  assumes "slot_ok q"
  shows "handle_latest (trace q) (native_handler q)"
    and "workers q \<noteq> []"
    and "native_handler q = Some (length (workers q) - 1)"
  using assms unfolding slot_ok_def by blast+

lemma slot_ok_loop_reach:
  assumes "loop_reach p0 q" and "slot_ok p0"
  shows "slot_ok q"
  using assms
proof (induction rule: loop_reach.induct)
  case (here p)
  then show ?case .
next
  case (prints p q s)
  then have q: "slot_ok q" by simp
  have "handle_latest (trace q @ [Printf s]) (native_handler q)"
    using slot_okD(1) [OF q] by (rule handle_latest_quiet) simp_all
  then show ?case
    using slot_okD(2,3) [OF q] by (intro slot_okI) simp_all
next
  case (reads p q r)
  then have q: "slot_ok q" by simp
  show ?case
    using slot_okD [OF q] by (intro slot_okI) simp_all
next
  case (stops p q)
  then have q: "slot_ok q" by simp
  have "handle_latest (trace (stop_thread q)) (native_handler q)"
    using slot_okD(1) [OF q] by (rule handle_latest_stop)
  then show ?case
    using slot_okD(2,3) [OF q] by (intro slot_okI) (simp_all add: stop_thread_fields)
next
  case (restarts p q d n)
  then have q: "slot_ok q" by simp
  have "handle_latest (trace (stop_thread q)) (native_handler q)"
    using slot_okD(1) [OF q] by (rule handle_latest_stop)
  then have "handle_latest (trace (restart_thread d n q)) (native_handler (restart_thread d n q))"
    unfolding restart_thread_def by (rule handle_latest_start)
  then show ?case
    by (intro slot_okI) (simp_all add: restart_thread_fields)
qed

lemma slot_ok_entry: "slot_ok (start_thread 0 3 (emit CommandLine_Parse (process_start inp)))"
proof -
  have "handle_latest [] None"
    by (simp add: handle_latest_def latest_created_def)
  then have "handle_latest ([] @ [CommandLine_Parse]) None"
    by (rule handle_latest_quiet) simp_all
  then have "handle_latest (trace (emit CommandLine_Parse (process_start inp))) None"
    by (simp add: process_start_def)
  then have "handle_latest (trace (start_thread 0 3 (emit CommandLine_Parse (process_start inp))))
     (native_handler (start_thread 0 3 (emit CommandLine_Parse (process_start inp))))"
    by (rule handle_latest_start)
  then show ?thesis
    by (simp add: slot_ok_def start_thread_fields)
qed

text \<open>
  C10. The process has one handle, \<open>native_handler\<close>. \<open>start_thread\<close> stores in it
  the handle of the thread it has just created, and does so before it detaches the
  thread. In every state that \<open>main\<close> reaches, the handle is that of the thread created
  last, and every cancellation the controller has issued was aimed at the thread created
  last before it, never at an earlier one.
\<close>

theorem handle_names_latest_worker:
  "native_handler (start_thread d n q) = Some (length (workers q)) \<and>
   trace (start_thread d n q) =
     trace q @ [Thread_create (length (workers q)) d n,
                Store_native_handler (Some (length (workers q))),
                Thread_detach (length (workers q))] \<and>
   (main k in0 inp = Inr (f, p) \<longrightarrow>
      native_handler p = Some (length (workers p) - 1) \<and>
      native_handler p = latest_created (trace p) \<and>
      (\<forall>pre h suf. trace p = pre @ Pthread_cancel h # suf \<longrightarrow> h = latest_created pre))"
proof -
  have "slot_ok p" if "main k in0 inp = Inr (f, p)"
    using main_reach [OF that] slot_ok_entry by (rule slot_ok_loop_reach)
  then show ?thesis
    by (simp add: start_thread_fields slot_ok_def handle_latest_def)
qed

theorem handle_names_latest_worker_witness:
  "main 2 [] ''chgd 50 stop '' =
     Inr (\<lparr>n_nodes = 3, delay = 50, in_buf = []\<rparr>,
          \<lparr>native_handler = Some 1, workers = [(0, 3), (50, 3)],
           trace = [CommandLine_Parse,
                    Thread_create 0 0 3, Store_native_handler (Some 0), Thread_detach 0,
                    Printf ''> '', Printf ''delay > '',
                    Pthread_cancel (Some 0), Engine Simulator_Stop, Engine Simulator_Destroy,
                    Thread_create 1 50 3, Store_native_handler (Some 1), Thread_detach 1,
                    Printf ''> '', Printf ''stopping\<newline>'',
                    Pthread_cancel (Some 1), Engine Simulator_Stop, Engine Simulator_Destroy],
           stdin = '' ''\<rparr>) \<and>
   latest_created
     [CommandLine_Parse,
      Thread_create 0 0 3, Store_native_handler (Some 0), Thread_detach 0,
      Printf ''> '', Printf ''delay > '',
      Pthread_cancel (Some 0), Engine Simulator_Stop, Engine Simulator_Destroy,
      Thread_create 1 50 3, Store_native_handler (Some 1), Thread_detach 1,
      Printf ''> '', Printf ''stopping\<newline>'',
      Pthread_cancel (Some 1), Engine Simulator_Stop, Engine Simulator_Destroy] = Some 1 \<and>
   latest_created
     [CommandLine_Parse,
      Thread_create 0 0 3, Store_native_handler (Some 0), Thread_detach 0,
      Printf ''> '', Printf ''delay > '',
      Pthread_cancel (Some 0), Engine Simulator_Stop, Engine Simulator_Destroy,
      Thread_create 1 50 3, Store_native_handler (Some 1), Thread_detach 1,
      Printf ''> '', Printf ''stopping\<newline>''] = Some 1"
  using handle_names_latest_worker [of 0 3 "process_start []" 2 "[]" "''chgd 50 stop ''"
      "\<lparr>n_nodes = 3, delay = 50, in_buf = []\<rparr>"
      "\<lparr>native_handler = Some 1, workers = [(0, 3), (50, 3)],
        trace = [CommandLine_Parse,
                 Thread_create 0 0 3, Store_native_handler (Some 0), Thread_detach 0,
                 Printf ''> '', Printf ''delay > '',
                 Pthread_cancel (Some 0), Engine Simulator_Stop, Engine Simulator_Destroy,
                 Thread_create 1 50 3, Store_native_handler (Some 1), Thread_detach 1,
                 Printf ''> '', Printf ''stopping\<newline>'',
                 Pthread_cancel (Some 1), Engine Simulator_Stop, Engine Simulator_Destroy],
        stdin = '' ''\<rparr>"]
    main_example
  by (simp add: latest_created_def)

subsection \<open>The start of \<open>main\<close>\<close>

text \<open>
  C9. When \<open>main\<close> enters its loop it has read nothing and printed no prompt, and it
  has called \<open>start_thread\<close> with delay 0 and 3 endpoints, whatever the input: thread 0
  runs on \<open>(0, 3)\<close> and a session is running. The first turn of the loop starts from this
  state.
\<close>

theorem main_starts_default_session:
  "main 0 in0 inp =
     Inr (\<lparr>n_nodes = 3, delay = 0, in_buf = cstr in0\<rparr>,
          \<lparr>native_handler = Some 0, workers = [(0, 3)],
           trace = [CommandLine_Parse, Thread_create 0 0 3, Store_native_handler (Some 0),
                    Thread_detach 0],
           stdin = inp\<rparr>) \<and>
   main (Suc k) in0 inp =
     (case main_iter (\<lparr>n_nodes = 3, delay = 0, in_buf = cstr in0\<rparr>,
                      \<lparr>native_handler = Some 0, workers = [(0, 3)],
                       trace = [CommandLine_Parse, Thread_create 0 0 3,
                                Store_native_handler (Some 0), Thread_detach 0],
                       stdin = inp\<rparr>) of
        Inl e \<Rightarrow> Inl e
      | Inr s \<Rightarrow> main_loop k s) \<and>
   status_of \<lparr>native_handler = Some 0, workers = [(0, 3)],
              trace = [CommandLine_Parse, Thread_create 0 0 3, Store_native_handler (Some 0),
                       Thread_detach 0],
              stdin = inp\<rparr> = Running"
  by (simp add: main_def main_init_def process_start_def emit_def start_thread_def Let_def
      status_of_def running_sessions_def)

theorem main_starts_default_session_witness:
  "main 0 [] ''stop'' =
     Inr (\<lparr>n_nodes = 3, delay = 0, in_buf = []\<rparr>,
          \<lparr>native_handler = Some 0, workers = [(0, 3)],
           trace = [CommandLine_Parse, Thread_create 0 0 3, Store_native_handler (Some 0),
                    Thread_detach 0],
           stdin = ''stop''\<rparr>)"
  using main_starts_default_session [of "[]" "''stop''" 0]
  by simp

subsection \<open>The conversions of integers\<close>

lemma digit_char_cases:
  "k < 10 \<Longrightarrow> k = 0 \<or> k = 1 \<or> k = 2 \<or> k = 3 \<or> k = 4 \<or> k = 5 \<or> k = 6 \<or> k = 7 \<or> k = 8 \<or> k = (9::nat)"
  by arith

lemma digit_char_props:
  assumes "k < 10"
  shows "isdigit (digit_char k)" and "digit_val (digit_char k) = k"
    and "\<not> isspace (digit_char k)" and "digit_char k \<noteq> CHR ''-''" and "digit_char k \<noteq> CHR ''+''"
  using digit_char_cases [OF assms]
  by (auto simp: digit_char_def isdigit_def digit_val_def isspace_def)

lemma dec_nonempty: "dec n \<noteq> []"
  by (subst dec.simps) simp

lemma dec_digits: "c \<in> set (dec n) \<Longrightarrow> isdigit c"
proof (induction n rule: dec.induct)
  case (1 n)
  then show ?case
    by (subst (asm) (2) dec.simps) (auto simp: digit_char_props split: if_splits)
qed

lemma digits_val_snoc: "digits_val (ds @ [c]) = 10 * digits_val ds + digit_val c"
  by (simp add: digits_val_def)

lemma digits_val_dec: "digits_val (dec n) = n"
proof (induction n rule: dec.induct)
  case (1 n)
  show ?case
  proof (cases "n < 10")
    case True
    then show ?thesis
      by (subst dec.simps) (simp add: digits_val_def digit_char_props)
  next
    case False
    then have "digits_val (dec n) = 10 * digits_val (dec (n div 10)) + digit_val (digit_char (n mod 10))"
      by (subst dec.simps) (simp add: digits_val_snoc)
    with False "1.IH" show ?thesis
      by (simp add: digit_char_props)
  qed
qed

text \<open>
  An \<open>int\<close> has at most ten digits, so \<open>sprintf\<close> writes at most 17 characters and
  the closing NUL into \<open>str\<close>, an array of 100: \<open>createSimulation\<close> has no overflow.
\<close>

lemma length_dec: "0 < k \<Longrightarrow> n < 10 ^ k \<Longrightarrow> length (dec n) \<le> k"
proof (induction n arbitrary: k rule: dec.induct)
  case (1 n)
  show ?case
  proof (cases "n < 10")
    case True
    with "1.prems" show ?thesis by (subst dec.simps) simp
  next
    case False
    with "1.prems" obtain j where k: "k = Suc j" and j: "0 < j"
      by (cases k; cases "k - 1") auto
    from "1.prems" k have "n div 10 < 10 ^ j"
      by (simp add: less_mult_imp_div_less mult.commute)
    with "1.IH" [OF False j] have "length (dec (n div 10)) \<le> j" by simp
    with False k show ?thesis by (subst dec.simps) simp
  qed
qed

lemma length_sprintf_d:
  assumes "INT_MIN \<le> i" and "i \<le> INT_MAX"
  shows "length (sprintf_d i) \<le> 11"
proof -
  have "length (dec (nat \<bar>i\<bar>)) \<le> 10"
    using assms by (intro length_dec) (simp_all add: INT_MIN_def INT_MAX_def)
  then show ?thesis
    by (auto simp: sprintf_d_def abs_if split: if_splits)
qed

lemma sprintf_tap_fits:
  assumes "INT_MIN \<le> i" and "i \<le> INT_MAX"
  shows "length (sprintf_tap i) + 1 \<le> 100"
  using length_sprintf_d [OF assms] by (simp add: sprintf_tap_def)

text \<open>
  \<open>scanf\<close> reads back what \<open>sprintf\<close> writes: the two conversions \<open>%d\<close> of the
  model agree on every integer, when no digit follows the number.
\<close>

lemma takeWhile_digits_dec:
  assumes "rest = [] \<or> \<not> isdigit (hd rest)"
  shows "takeWhile isdigit (dec n @ rest) = dec n" and "dropWhile isdigit (dec n @ rest) = rest"
proof -
  have all: "\<forall>c \<in> set (dec n). isdigit c" by (simp add: dec_digits)
  have t: "takeWhile isdigit rest = []" and d: "dropWhile isdigit rest = rest"
    using assms by (cases rest; auto)+
  show "takeWhile isdigit (dec n @ rest) = dec n"
    using all t by (simp add: takeWhile_append2)
  show "dropWhile isdigit (dec n @ rest) = rest"
    using all d by (simp add: dropWhile_append2)
qed

lemma hd_dec:
  "\<not> isspace (hd (dec n))" "hd (dec n) \<noteq> CHR ''-''" "hd (dec n) \<noteq> CHR ''+''"
proof -
  have "hd (dec n) \<in> set (dec n)" using dec_nonempty by simp
  then have d: "isdigit (hd (dec n))" by (rule dec_digits)
  then show "\<not> isspace (hd (dec n))" "hd (dec n) \<noteq> CHR ''-''" "hd (dec n) \<noteq> CHR ''+''"
    by (auto simp: isdigit_def isspace_def Let_def)
qed

lemma scanf_d_reads_sprintf_d:
  assumes "rest = [] \<or> \<not> isdigit (hd rest)"
  shows "scanf_d (sprintf_d i @ rest) = (Assigned i, rest)"
proof (cases "i < 0")
  case True
  have sp: "\<not> isspace (CHR ''-'')" by (simp add: isspace_def)
  have "sprintf_d i @ rest = CHR ''-'' # (dec (nat (- i)) @ rest)"
    using True by (simp add: sprintf_d_def)
  then show ?thesis
    using True sp takeWhile_digits_dec [OF assms, of "nat (- i)"] dec_nonempty [of "nat (- i)"]
    by (simp add: scanf_d_def Let_def digits_val_dec)
next
  case False
  obtain c cs where cs: "dec (nat i) = c # cs"
    using dec_nonempty [of "nat i"] by (cases "dec (nat i)") auto
  with hd_dec [of "nat i"] have c: "\<not> isspace c" "c \<noteq> CHR ''-''" "c \<noteq> CHR ''+''"
    by simp_all
  have "sprintf_d i @ rest = c # (cs @ rest)"
    using False cs by (simp add: sprintf_d_def)
  then show ?thesis
    using False c takeWhile_digits_dec [OF assms, of "nat i"] cs digits_val_dec [of "nat i"]
    by (simp add: scanf_d_def Let_def)
qed

subsection \<open>The other commands\<close>

text \<open>The token \<open>stop\<close>: the turn prints its answer and calls \<open>stop_thread\<close>.\<close>

lemma stop_token_stops:
  assumes "scanf_s (stdin p) = (Assigned ''stop'', rest)"
  shows "main_iter (f, p) =
           Inr (f\<lparr>in_buf := []\<rparr>,
                stop_thread (p\<lparr>stdin := rest,
                               trace := trace p @ [Printf ''> '', Printf ''stopping\<newline>'']\<rparr>))"
proof -
  have "main_iter (f, p) = dispatch (f\<lparr>in_buf := ''stop''\<rparr>, (emit (Printf ''> '') p)\<lparr>stdin := rest\<rparr>)"
    using assms by (simp add: main_iter_def)
  also have "\<dots> = Inr (f\<lparr>in_buf := []\<rparr>,
       stop_thread (emit (Printf ''stopping\<newline>'') ((emit (Printf ''> '') p)\<lparr>stdin := rest\<rparr>)))"
    by (subst dispatch_stop) simp_all
  finally show ?thesis
    by (simp add: emit_def)
qed

text \<open>
  The token \<open>chgn\<close> followed by an integer \<open>v\<close>: \<open>restart_thread\<close> with the delay
  held and \<open>v\<close> endpoints.
\<close>

lemma chgn_restarts_with_new_count:
  assumes "scanf_s (stdin p) = (Assigned ''chgn'', rest)"
    and "scanf_d rest = (Assigned v, rest')"
    and "INT_MIN \<le> v" and "v \<le> INT_MAX"
  shows "main_iter (f, p) =
           Inr (f\<lparr>n_nodes := v, in_buf := []\<rparr>,
                restart_thread (delay f) v
                  (p\<lparr>trace := trace p @ [Printf ''> '', Printf ''n nodes > ''], stdin := rest'\<rparr>))"
proof -
  have "main_iter (f, p) = dispatch (f\<lparr>in_buf := ''chgn''\<rparr>, (emit (Printf ''> '') p)\<lparr>stdin := rest\<rparr>)"
    using assms(1) by (simp add: main_iter_def)
  also have "\<dots> = Inr (f\<lparr>n_nodes := v, in_buf := []\<rparr>,
       restart_thread (delay f) v
         ((emit (Printf ''n nodes > '') ((emit (Printf ''> '') p)\<lparr>stdin := rest\<rparr>))\<lparr>stdin := rest'\<rparr>))"
    using assms(2-4) by (subst dispatch_chgn [where v = v and rest = rest']) simp_all
  finally show ?thesis
    by (simp add: emit_def)
qed

text \<open>
  When the number after \<open>chgd\<close> is missing or is no number, \<open>delay\<close> keeps its value
  and the session is restarted all the same, on the values held.
\<close>

lemma chgd_without_number_restarts:
  assumes "scanf_s (stdin p) = (Assigned ''chgd'', rest)"
    and "scanf_d rest = (Matching_failure, rest')"
  shows "main_iter (f, p) =
           Inr (f\<lparr>in_buf := []\<rparr>,
                restart_thread (delay f) (n_nodes f)
                  (p\<lparr>trace := trace p @ [Printf ''> '', Printf ''delay > ''], stdin := rest'\<rparr>))"
  using assms
  by (simp add: main_iter_def dispatch_def if_stop_def if_chgd_def if_chgn_def strcmp_eq_def
      emit_def)

end
